theory Spec2Isabelle
  imports Complex_Main "HOL-Library.AList" "HOL-Library.Log_Nat"
begin

section \<open>FIFO capital-gain matching (cap-gain-calculator.py, section 3)\<close>

text \<open>
  The matching pass of \<^verbatim>\<open>cap-gain-calculator.py\<close> (lines 93 to 270) as explicit state
  passing. Conventions of the embedding:
  \<^item> a pandas Timestamp is its number of nanoseconds since the epoch (\<open>int\<close>), a Timedelta
    a number of nanoseconds;
  \<^item> Units and Total Amount are rationals (\<open>rat\<close>), and the matching pass is written with
    exact arithmetic; the additions of the year summary are also given with the rounding
    of binary64 made explicit (\<open>add_gain_r\<close>), since the identities between its sums
    depend on it;
  \<^item> a deque is a list whose head is the right end of the deque, so that \<open>pop()\<close> takes
    the head, \<open>[-1]\<close> reads it and \<open>append\<close> puts an element back in front;
  \<^item> a dict that is iterated is an association list in insertion order;
  \<^item> the only exception the pass can raise is the NameError of reading \<open>buy_tx\<close> before
    any assignment (line 216); it is the \<open>Inl\<close> branch of the result.
\<close>

subsection \<open>Data\<close>

text \<open>A row of input.xlsx: the six properties of a transaction.\<close>

record tx =
  Timestamp :: int
  Asset :: string
  Type :: string
  Units :: rat
  Total_Amount :: rat
  IRS_ID :: string

text \<open>
  The \<open>match\<close> dictionary as it is copied into a dataframe by the sell loop: the two
  remainder columns hold the default \<open>'-'\<close> there and are left out.
\<close>

record lot =
  lot_Asset :: string
  Date_Purchased :: int
  Date_Sold :: int
  lot_Units :: rat
  Sale_Price :: rat
  Basis :: rat
  Gain_Loss :: rat
  IRS_ID_Buy :: string
  IRS_ID_Sell :: string

text \<open>The \<open>match\<close> dictionary as the carryover loop fills it (all sale columns \<open>'-'\<close>).\<close>

record carryover =
  co_Asset :: string
  co_Date_Purchased :: int
  co_Remainder_Units :: rat
  co_Remainder_Basis :: rat
  co_IRS_ID_Buy :: string

record volume =
  vol_Gain_Loss :: rat
  vol_Sale_Price :: rat
  vol_Basis :: rat
  vol_Remainder_Units :: rat
  vol_Remainder_Basis :: rat

text \<open>The three shapes of row that are concatenated to \<open>fifo[asset]\<close>.\<close>

datatype row = Lot lot | Carryover carryover | Volume volume

text \<open>One entry of \<open>year_summary\<close> (its \<open>'Year'\<close> label is the key it is stored under).\<close>

record bucket =
  STCG :: rat
  STCL :: rat
  LTCG :: rat
  LTCL :: rat
  Net_CG :: rat

text \<open>
  \<open>year_summary\<close>: the entry under the key \<open>'totals'\<close>, created at line 110 and never
  removed, and the entries under \<open>str(year)\<close> in insertion order, keyed by the year.
\<close>

record ysummary =
  totals :: bucket
  years :: "(int \<times> bucket) list"

datatype error = NameError

text \<open>
  The variables of the pass. \<open>BUY\<close> and \<open>SELL\<close> are \<open>asset_map[asset][BUY]\<close> and
  \<open>asset_map[asset][SELL]\<close> of the asset being processed, \<open>fifo_asset\<close> is
  \<open>fifo[asset]\<close>, \<open>fifo\<close> holds the tables of the assets already finished. \<open>buy_tx\<close>
  is \<open>None\<close> as long as the name has not been assigned.
\<close>

record state =
  BUY :: "tx list"
  SELL :: "tx list"
  fifo_asset :: "row list"
  volume_summary :: volume
  fifo :: "(string \<times> row list) list"
  margin :: "lot list"
  year_summary :: ysummary
  buy_tx :: "tx option"

subsection \<open>Time\<close>

definition seconds :: "int \<Rightarrow> int" where
  "seconds n = n * 1000000000"

definition days :: "int \<Rightarrow> int" where
  "days n = n * 86400 * 1000000000"

text \<open>
  \<open>Timestamp.year\<close>: the year of the proleptic Gregorian calendar in which the
  nanosecond lies (days since 1970-01-01 turned into a civil date).
\<close>

definition year_of :: "int \<Rightarrow> int" where
  "year_of t =
     (let z = t div days 1 + 719468;
          era = z div 146097;
          doe = z mod 146097;
          yoe = (doe - doe div 1460 + doe div 36524 - doe div 146096) div 365;
          doy = doe - (365 * yoe + yoe div 4 - yoe div 100);
          mp = (5 * doy + 2) div 153
      in yoe + era * 400 + (if mp < 10 then 0 else 1))"

subsection \<open>The year summary (lines 210 to 232)\<close>

definition new_bucket :: bucket where
  "new_bucket = \<lparr>STCG = 0, STCL = 0, LTCG = 0, LTCL = 0, Net_CG = 0\<rparr>"

text \<open>
  The bucket selected by lines 216 to 229, then line 231: \<open>short\<close> is the outcome of the
  comparison of line 216.
\<close>

definition add_gain :: "bool \<Rightarrow> rat \<Rightarrow> bucket \<Rightarrow> bucket" where
  "add_gain short g b =
     (let b1 = (if short then
                  (if g > 0 then b\<lparr>STCG := STCG b + g\<rparr> else b\<lparr>STCL := STCL b + g\<rparr>)
                else
                  (if g > 0 then b\<lparr>LTCG := LTCG b + g\<rparr> else b\<lparr>LTCL := LTCL b + g\<rparr>))
      in b1\<lparr>Net_CG := Net_CG b1 + g\<rparr>)"

text \<open>Lines 213 and 214.\<close>

definition ensure_year :: "int \<Rightarrow> ysummary \<Rightarrow> ysummary" where
  "ensure_year y ys =
     (if map_of (years ys) y = None then ys\<lparr>years := years ys @ [(y, new_bucket)]\<rparr> else ys)"

definition update_year_summary :: "int \<Rightarrow> bool \<Rightarrow> rat \<Rightarrow> ysummary \<Rightarrow> ysummary" where
  "update_year_summary y short g ys =
     \<lparr>totals = add_gain short g (totals ys),
      years = AList.map_entry y (add_gain short g) (years ys)\<rparr>"

subsection \<open>The additions of the year summary in binary64\<close>

text \<open>
  The script holds amounts as binary64 floats: the result of an addition is the double
  nearest to the exact sum, ties going to the even mantissa. \<open>round64\<close> is that rounding
  on the rationals, for magnitudes in the normal range of binary64 (no overflow, no
  subnormal result); \<open>pow2 e\<close> is \<open>2^e\<close> for an integer exponent.
\<close>

definition pow2 :: "int \<Rightarrow> rat" where
  "pow2 e = (if 0 \<le> e then 2 ^ nat e else 1 / 2 ^ nat (- e))"

definition round_half_even :: "rat \<Rightarrow> int" where
  "round_half_even q =
     (let n = \<lfloor>q\<rfloor>; f = q - of_int n
      in if f < 1 / 2 then n else if 1 / 2 < f then n + 1 else if even n then n else n + 1)"

definition round64 :: "rat \<Rightarrow> rat" where
  "round64 x =
     (if x = 0 then 0
      else
        let a = \<bar>x\<bar>;
            d = bitlen (fst (quotient_of a)) - bitlen (snd (quotient_of a));
            e = (if pow2 d \<le> a then d else d - 1);
            u = pow2 (e - 52)
        in sgn x * of_int (round_half_even (a / u)) * u)"

text \<open>
  Lines 216 to 231 with the result of each \<open>+=\<close> passed through \<open>r\<close>: \<open>round64\<close> for
  the script as it runs, the identity for exact arithmetic (which is \<open>add_gain\<close>).
\<close>

definition add_gain_r :: "(rat \<Rightarrow> rat) \<Rightarrow> bool \<Rightarrow> rat \<Rightarrow> bucket \<Rightarrow> bucket" where
  "add_gain_r r short g b =
     (let b1 = (if short then
                  (if g > 0 then b\<lparr>STCG := r (STCG b + g)\<rparr> else b\<lparr>STCL := r (STCL b + g)\<rparr>)
                else
                  (if g > 0 then b\<lparr>LTCG := r (LTCG b + g)\<rparr> else b\<lparr>LTCL := r (LTCL b + g)\<rparr>))
      in b1\<lparr>Net_CG := r (Net_CG b1 + g)\<rparr>)"

text \<open>Lines 213 to 232 for one match: the year's entry is made, then both buckets updated.\<close>

definition year_update :: "(rat \<Rightarrow> rat) \<Rightarrow> int \<Rightarrow> bool \<Rightarrow> rat \<Rightarrow> ysummary \<Rightarrow> ysummary" where
  "year_update r y short g ys =
     \<lparr>totals = add_gain_r r short g (totals (ensure_year y ys)),
      years = AList.map_entry y (add_gain_r r short g) (years (ensure_year y ys))\<rparr>"

text \<open>The updates of a list of matches, each given by its year, its class and its gain.\<close>

definition replay :: "(rat \<Rightarrow> rat) \<Rightarrow> (int \<times> bool \<times> rat) list \<Rightarrow> ysummary \<Rightarrow> ysummary" where
  "replay r ups ys = fold (\<lambda>u. year_update r (fst u) (fst (snd u)) (snd (snd u))) ups ys"

subsection \<open>One iteration of the sell loop (lines 131 to 237)\<close>

definition dust :: rat where
  "dust = 1 / 100000000"

text \<open>The test of lines 134 and 135 on the purchase deque and the popped sale.\<close>

definition margin_test :: "tx list \<Rightarrow> tx \<Rightarrow> bool" where
  "margin_test bq s =
     (case bq of [] \<Rightarrow> True | b # _ \<Rightarrow> Timestamp b > Timestamp s + seconds 15)"

text \<open>Lines 139 to 146.\<close>

definition margin_match :: "string \<Rightarrow> tx \<Rightarrow> lot" where
  "margin_match a s =
     \<lparr>lot_Asset = a, Date_Purchased = Timestamp s, Date_Sold = Timestamp s,
      lot_Units = \<bar>Units s\<bar>, Sale_Price = Total_Amount s, Basis = 0,
      Gain_Loss = Total_Amount s, IRS_ID_Buy = ''MARGIN'', IRS_ID_Sell = IRS_ID s\<rparr>"

text \<open>
  Lines 158 to 161 with the three columns a branch of lines 164 to 200 sets; the gain is
  the one line 203 stores before the dictionary is read again.
\<close>

definition fifo_lot :: "string \<Rightarrow> tx \<Rightarrow> tx \<Rightarrow> rat \<Rightarrow> rat \<Rightarrow> rat \<Rightarrow> lot" where
  "fifo_lot a b s u sp ba =
     \<lparr>lot_Asset = a, Date_Purchased = Timestamp b, Date_Sold = Timestamp s,
      lot_Units = u, Sale_Price = sp, Basis = ba,
      Gain_Loss = sp - ba, IRS_ID_Buy = IRS_ID b, IRS_ID_Sell = IRS_ID s\<rparr>"

text \<open>
  Lines 134 to 200 for the popped sale \<open>s\<close>, in the state left by the pop: the result is
  \<open>sell_tx\<close> as the rest of the iteration reads it, the \<open>match\<close> dictionary and the
  new state. \<open>margin_branch\<close> is lines 139 to 149, \<open>match_branch\<close> lines 155 to 200
  for the popped purchase \<open>b\<close> and the rest \<open>bq\<close> of its deque.
\<close>

definition margin_branch :: "string \<Rightarrow> tx \<Rightarrow> state \<Rightarrow> tx \<times> lot \<times> state" where
  "margin_branch a s st =
     (s, margin_match a s, st\<lparr>margin := margin st @ [margin_match a s]\<rparr>)"

definition match_branch ::
  "string \<Rightarrow> tx \<Rightarrow> tx \<Rightarrow> tx list \<Rightarrow> state \<Rightarrow> tx \<times> lot \<times> state" where
  "match_branch a s b bq st =
     (if \<bar>Units s\<bar> > Units b then
        let pro_rata_sale_price = Units b / \<bar>Units s\<bar> * Total_Amount s;
            s' = s\<lparr>Units := Units s + Units b,
                   Total_Amount := Total_Amount s - pro_rata_sale_price\<rparr>
        in (s', fifo_lot a b s (Units b) pro_rata_sale_price (Total_Amount b),
            st\<lparr>BUY := bq, SELL := s' # SELL st, buy_tx := Some b\<rparr>)
      else if \<bar>Units s\<bar> < Units b then
        let pro_rata_basis = \<bar>Units s\<bar> / Units b * Total_Amount b;
            b' = b\<lparr>Units := Units b + Units s,
                   Total_Amount := Total_Amount b - pro_rata_basis\<rparr>
        in (s, fifo_lot a b s \<bar>Units s\<bar> (Total_Amount s) pro_rata_basis,
            st\<lparr>BUY := b' # bq, buy_tx := Some b'\<rparr>)
      else
        (s, fifo_lot a b s (Units b) (Total_Amount s) (Total_Amount b),
         st\<lparr>BUY := bq, buy_tx := Some b\<rparr>))"

definition fifo_branch :: "string \<Rightarrow> tx \<Rightarrow> state \<Rightarrow> tx \<times> lot \<times> state" where
  "fifo_branch a s st =
     (case BUY st of
        [] \<Rightarrow> margin_branch a s st
      | b # bq \<Rightarrow>
          if Timestamp b > Timestamp s + seconds 15 then margin_branch a s st
          else match_branch a s b bq st)"

text \<open>Lines 203 to 208: the gain, and the row of \<open>fifo[asset]\<close> unless the units are dust.\<close>

definition set_gain :: "lot \<Rightarrow> lot" where
  "set_gain m = m\<lparr>Gain_Loss := Sale_Price m - Basis m\<rparr>"

definition emit_match :: "lot \<Rightarrow> state \<Rightarrow> state" where
  "emit_match m st =
     (if \<bar>lot_Units m\<bar> > dust then st\<lparr>fifo_asset := fifo_asset st @ [Lot m]\<rparr> else st)"

text \<open>
  Lines 211 to 237. Line 216 reads \<open>buy_tx\<close>, whatever branch the iteration took: the
  name is looked up after the year's entry has been made.
\<close>

definition update_summaries :: "tx \<Rightarrow> lot \<Rightarrow> state \<Rightarrow> error + state" where
  "update_summaries sell_tx m st =
     (let year = year_of (Timestamp sell_tx);
          ys = ensure_year year (year_summary st)
      in case buy_tx st of
           None \<Rightarrow> Inl NameError
         | Some b \<Rightarrow>
             let short = (Timestamp sell_tx - Timestamp b < days 365);
                 v = volume_summary st
             in Inr (st\<lparr>year_summary := update_year_summary year short (Gain_Loss m) ys,
                        volume_summary :=
                          v\<lparr>vol_Gain_Loss := vol_Gain_Loss v + Gain_Loss m,
                            vol_Sale_Price := vol_Sale_Price v + Sale_Price m,
                            vol_Basis := vol_Basis v + Basis m\<rparr>\<rparr>))"

text \<open>Lines 134 to 208 for the popped sale \<open>s\<close>.\<close>

definition match_and_emit :: "string \<Rightarrow> tx \<Rightarrow> state \<Rightarrow> tx \<times> lot \<times> state" where
  "match_and_emit a s st =
     (case fifo_branch a s st of
        (sell_tx, m0, st1) \<Rightarrow> (sell_tx, set_gain m0, emit_match (set_gain m0) st1))"

text \<open>The body of the sell loop for the popped sale \<open>s\<close>.\<close>

definition sell_iter :: "string \<Rightarrow> tx \<Rightarrow> state \<Rightarrow> error + state" where
  "sell_iter a s st =
     (case match_and_emit a s st of (sell_tx, m, st1) \<Rightarrow> update_summaries sell_tx m st1)"

subsection \<open>The loops\<close>

text \<open>Lines 128 to 237.\<close>

function sell_loop :: "string \<Rightarrow> state \<Rightarrow> error + state" where
  "sell_loop a st =
     (case SELL st of
        [] \<Rightarrow> Inr st
      | s # sq \<Rightarrow>
          (case sell_iter a s (st\<lparr>SELL := sq\<rparr>) of
             Inl e \<Rightarrow> Inl e
           | Inr st' \<Rightarrow> sell_loop a st'))"
  by pat_completeness auto
termination
proof (relation "measure (\<lambda>(a, st). length (SELL st) + length (BUY st))", goal_cases)
  case 1
  show ?case by simp
next
  case (2 a st s sq st')
  then show ?case
    by (auto simp: sell_iter_def match_and_emit_def fifo_branch_def margin_branch_def
                   match_branch_def emit_match_def update_summaries_def Let_def
             split: if_splits list.splits option.splits)
qed

text \<open>Lines 242 to 262: one carryover, for the popped purchase \<open>b\<close>.\<close>

definition carry_iter :: "string \<Rightarrow> tx \<Rightarrow> state \<Rightarrow> state" where
  "carry_iter a b st =
     (let v = volume_summary st;
          st1 = st\<lparr>buy_tx := Some b,
                   volume_summary :=
                     v\<lparr>vol_Remainder_Units := vol_Remainder_Units v + Units b,
                       vol_Remainder_Basis := vol_Remainder_Basis v + Total_Amount b\<rparr>\<rparr>
      in if Units b > dust then
           st1\<lparr>fifo_asset := fifo_asset st1 @
                  [Carryover \<lparr>co_Asset = a, co_Date_Purchased = Timestamp b,
                              co_Remainder_Units = Units b,
                              co_Remainder_Basis = Total_Amount b,
                              co_IRS_ID_Buy = IRS_ID b\<rparr>]\<rparr>
         else st1)"

function carry_loop :: "string \<Rightarrow> state \<Rightarrow> state" where
  "carry_loop a st =
     (case BUY st of
        [] \<Rightarrow> st
      | b # bq \<Rightarrow> carry_loop a (carry_iter a b (st\<lparr>BUY := bq\<rparr>)))"
  by pat_completeness auto
termination
  by (relation "measure (\<lambda>(a, st). length (BUY st))")
     (auto simp: carry_iter_def Let_def)

text \<open>Lines 116 to 266 for one key of \<open>asset_map\<close> and its two deques.\<close>

definition new_volume :: volume where
  "new_volume = \<lparr>vol_Gain_Loss = 0, vol_Sale_Price = 0, vol_Basis = 0,
                 vol_Remainder_Units = 0, vol_Remainder_Basis = 0\<rparr>"

definition process_asset :: "string \<times> tx list \<times> tx list \<Rightarrow> state \<Rightarrow> error + state" where
  "process_asset e st =
     (case e of (a, bq, sq) \<Rightarrow>
        (case sell_loop a (st\<lparr>BUY := bq, SELL := sq, fifo_asset := [],
                               volume_summary := new_volume\<rparr>) of
           Inl err \<Rightarrow> Inl err
         | Inr st1 \<Rightarrow>
             let st2 = carry_loop a st1
             in Inr (st2\<lparr>fifo := fifo st2 @
                          [(a, fifo_asset st2 @ [Volume (volume_summary st2)])]\<rparr>)))"

text \<open>Line 113: the assets in the order of \<open>asset_map\<close>.\<close>

fun asset_loop :: "(string \<times> tx list \<times> tx list) list \<Rightarrow> state \<Rightarrow> error + state" where
  "asset_loop [] st = Inr st"
| "asset_loop (e # es) st =
     (case process_asset e st of Inl err \<Rightarrow> Inl err | Inr st' \<Rightarrow> asset_loop es st')"

text \<open>Lines 103 to 110: the state before the first asset.\<close>

definition init_state :: state where
  "init_state =
     \<lparr>BUY = [], SELL = [], fifo_asset = [], volume_summary = new_volume, fifo = [],
      margin = [], year_summary = \<lparr>totals = new_bucket, years = []\<rparr>, buy_tx = None\<rparr>"

definition run :: "(string \<times> tx list \<times> tx list) list \<Rightarrow> error + state" where
  "run asset_map = asset_loop asset_map init_state"

text \<open>
  The sell loop with a budget of iterations: \<open>None\<close> when the budget is used up before
  the sale deque is empty.
\<close>

primrec sell_loop_fuel :: "nat \<Rightarrow> string \<Rightarrow> state \<Rightarrow> (error + state) option" where
  "sell_loop_fuel 0 a st = (case SELL st of [] \<Rightarrow> Some (Inr st) | s # sq \<Rightarrow> None)"
| "sell_loop_fuel (Suc n) a st =
     (case SELL st of
        [] \<Rightarrow> Some (Inr st)
      | s # sq \<Rightarrow>
          (case sell_iter a s (st\<lparr>SELL := sq\<rparr>) of
             Inl e \<Rightarrow> Some (Inl e)
           | Inr st' \<Rightarrow> sell_loop_fuel n a st'))"

subsection \<open>Quantities the properties speak about\<close>

text \<open>What lines 81 to 88 let into the deques: purchases with units \<open>\<ge> 0\<close>, sales with units \<open>\<le> 0\<close>.\<close>

definition buys_ok :: "tx list \<Rightarrow> bool" where
  "buys_ok bq = list_all (\<lambda>b. 0 \<le> Units b) bq"

definition sells_ok :: "tx list \<Rightarrow> bool" where
  "sells_ok sq = list_all (\<lambda>s. Units s \<le> 0) sq"

definition purchased :: "tx list \<Rightarrow> rat" where
  "purchased bq = sum_list (map Units bq)"

definition sale_units :: "tx list \<Rightarrow> rat" where
  "sale_units sq = sum_list (map (\<lambda>s. \<bar>Units s\<bar>) sq)"

text \<open>
  The units of a row of \<open>fifo[asset]\<close> that matches a purchase (its \<open>IRS ID Buy\<close> is not
  the marker of a margin sale), and the remainder units of a carryover row.
\<close>

fun row_matched :: "row \<Rightarrow> rat" where
  "row_matched (Lot m) = (if IRS_ID_Buy m = ''MARGIN'' then 0 else lot_Units m)"
| "row_matched (Carryover c) = 0"
| "row_matched (Volume v) = 0"

fun row_carried :: "row \<Rightarrow> rat" where
  "row_carried (Lot m) = 0"
| "row_carried (Carryover c) = co_Remainder_Units c"
| "row_carried (Volume v) = 0"

definition matched_units :: "row list \<Rightarrow> rat" where
  "matched_units rows = sum_list (map row_matched rows)"

definition carried_units :: "row list \<Rightarrow> rat" where
  "carried_units rows = sum_list (map row_carried rows)"

text \<open>
  No purchase carries the marker of a margin sale as its IRS ID, so that the rows of a
  table that match a purchase can be told from its margin rows.
\<close>

definition no_margin_id :: "tx list \<Rightarrow> bool" where
  "no_margin_id bq = list_all (\<lambda>b. IRS_ID b \<noteq> ''MARGIN'') bq"

definition queues_ok :: "state \<Rightarrow> bool" where
  "queues_ok st \<longleftrightarrow> buys_ok (BUY st) \<and> sells_ok (SELL st) \<and> no_margin_id (BUY st)"

text \<open>
  The purchased units a state accounts for: those of the matched rows of \<open>fifo[asset]\<close>
  and those still in the purchase deque. \<open>entries\<close> counts the entries of both deques.
\<close>

definition accounted :: "state \<Rightarrow> rat" where
  "accounted st = matched_units (fifo_asset st) + purchased (BUY st)"

definition entries :: "state \<Rightarrow> nat" where
  "entries st = length (SELL st) + length (BUY st)"

text \<open>
  The field of a bucket that lines 216 to 229 select for a gain, the bucket of a year as
  line 214 leaves it, and the condition that the two additions of an update of a bucket
  are exact under the rounding \<open>r\<close>.
\<close>

definition gain_class :: "bool \<Rightarrow> rat \<Rightarrow> bucket \<Rightarrow> rat" where
  "gain_class short g b =
     (if short then (if g > 0 then STCG b else STCL b)
      else (if g > 0 then LTCG b else LTCL b))"

definition year_bucket :: "int \<Rightarrow> ysummary \<Rightarrow> bucket" where
  "year_bucket y ys = (case map_of (years ys) y of None \<Rightarrow> new_bucket | Some b \<Rightarrow> b)"

definition exact_update :: "(rat \<Rightarrow> rat) \<Rightarrow> bool \<Rightarrow> rat \<Rightarrow> bucket \<Rightarrow> bool" where
  "exact_update r short g b \<longleftrightarrow>
     r (gain_class short g b + g) = gain_class short g b + g \<and>
     r (Net_CG b + g) = Net_CG b + g"

text \<open>The two consistency conditions on the year summary.\<close>

definition bucket_ok :: "bucket \<Rightarrow> bool" where
  "bucket_ok b \<longleftrightarrow> Net_CG b = STCG b + STCL b + LTCG b + LTCL b"

definition year_sum :: "(bucket \<Rightarrow> rat) \<Rightarrow> ysummary \<Rightarrow> rat" where
  "year_sum f ys = sum_list (map (\<lambda>e. f (snd e)) (years ys))"

definition totals_ok :: "ysummary \<Rightarrow> bool" where
  "totals_ok ys \<longleftrightarrow>
     STCG (totals ys) = year_sum STCG ys \<and> STCL (totals ys) = year_sum STCL ys \<and>
     LTCG (totals ys) = year_sum LTCG ys \<and> LTCL (totals ys) = year_sum LTCL ys \<and>
     Net_CG (totals ys) = year_sum Net_CG ys"

definition ysummary_ok :: "ysummary \<Rightarrow> bool" where
  "ysummary_ok ys \<longleftrightarrow>
     bucket_ok (totals ys) \<and> list_all (\<lambda>e. bucket_ok (snd e)) (years ys) \<and> totals_ok ys"

subsection \<open>Ledgers used as concrete inputs\<close>

definition t0 :: int where
  "t0 = seconds 1577836800"

definition btc_row :: "int \<Rightarrow> string \<Rightarrow> rat \<Rightarrow> rat \<Rightarrow> string \<Rightarrow> tx" where
  "btc_row t ty u amt i =
     \<lparr>Timestamp = t, Asset = ''BTC'', Type = ty, Units = u, Total_Amount = amt, IRS_ID = i\<rparr>"

text \<open>A single sale and no purchase.\<close>

definition ledger_margin_first :: "(string \<times> tx list \<times> tx list) list" where
  "ledger_margin_first =
     [(''BTC'', [], [btc_row t0 ''Sell'' (- 1 / 2) 5000 ''Gemi 1''])]"

text \<open>A purchase, its sale 400 days later, and one more sale a day after that.\<close>

definition covered_buy :: tx where
  "covered_buy = btc_row t0 ''Buy'' 1 10000 ''Gemi 1''"

definition covered_sale :: tx where
  "covered_sale = btc_row (t0 + days 400) ''Sell'' (- 1) 12000 ''Gemi 2''"

definition uncovered_sale :: tx where
  "uncovered_sale = btc_row (t0 + days 401) ''Sell'' (- 1 / 2) 5000 ''Gemi 3''"

definition ledger_covered_then_margin :: "(string \<times> tx list \<times> tx list) list" where
  "ledger_covered_then_margin = [(''BTC'', [covered_buy], [covered_sale, uncovered_sale])]"

text \<open>A purchase of two units and a sale of one unit ten days later.\<close>

definition partial_buy :: tx where
  "partial_buy = btc_row t0 ''Buy'' 2 20000 ''Gemi 1''"

definition partial_sale :: tx where
  "partial_sale = btc_row (t0 + days 10) ''Sell'' (- 1) 11000 ''Gemi 2''"

text \<open>A purchase, its sale, and an uncovered sale of \<open>2^-30\<close> units.\<close>

definition dust_sale :: tx where
  "dust_sale = btc_row (t0 + days 2) ''Sell'' (- 1 / 1073741824) 1 ''Gemi 3''"

definition ledger_dust_margin :: "(string \<times> tx list \<times> tx list) list" where
  "ledger_dust_margin =
     [(''BTC'',
       [btc_row t0 ''Buy'' 1 10000 ''Gemi 1''],
       [btc_row (t0 + days 1) ''Sell'' (- 1) 12000 ''Gemi 2'', dust_sale])]"

text \<open>A purchase of one unit and a sale of \<open>1 + 2^-30\<close> units.\<close>

definition dust_requeue_buy :: tx where
  "dust_requeue_buy = btc_row t0 ''Buy'' 1 10000 ''Gemi 1''"

definition dust_requeue_sale :: tx where
  "dust_requeue_sale = btc_row (t0 + days 1) ''Sell'' (- 1073741825 / 1073741824) 12000 ''Gemi 2''"

definition ledger_dust_requeue :: "(string \<times> tx list \<times> tx list) list" where
  "ledger_dust_requeue = [(''BTC'', [dust_requeue_buy], [dust_requeue_sale])]"

text \<open>A purchase of \<open>3 * 2^-27\<close> units sold in three sales of \<open>2^-27\<close> units.\<close>

definition dust_matches_buy :: tx where
  "dust_matches_buy = btc_row t0 ''Buy'' (3 / 134217728) 3 ''Gemi 1''"

definition ledger_dust_matches :: "(string \<times> tx list \<times> tx list) list" where
  "ledger_dust_matches =
     [(''BTC'',
       [dust_matches_buy],
       [btc_row (t0 + days 1) ''Sell'' (- 1 / 134217728) 2 ''Gemi 2'',
        btc_row (t0 + days 2) ''Sell'' (- 1 / 134217728) 2 ''Gemi 3'',
        btc_row (t0 + days 3) ''Sell'' (- 1 / 134217728) 2 ''Gemi 4''])]"

text \<open>
  Four purchases of one unit for 1 each and their four sales, for the doubles nearest to
  1.3, 1.9, 1.9 and 1.1 (written out as fractions): in turn a short-term and a long-term
  gain of 2020 and a short-term and a long-term gain of 2021. \<open>rounding_updates\<close> lists
  the year, the class and the gain of the four matches; each gain is a double, the
  subtraction of line 203 being exact on these amounts.
\<close>

definition rounding_ledger :: "(string \<times> tx list \<times> tx list) list" where
  "rounding_ledger =
     [(''BTC'',
       [btc_row (t0 - days 355) ''Buy'' 1 1 ''Gemi 1'',
        btc_row (t0 - days 354) ''Buy'' 1 1 ''Gemi 2'',
        btc_row (t0 + days 150) ''Buy'' 1 1 ''Gemi 5'',
        btc_row (t0 + days 151) ''Buy'' 1 1 ''Gemi 6''],
       [btc_row (t0 + days 5) ''Sell'' (- 1) (5854679515581645 / 4503599627370496) ''Gemi 3'',
        btc_row (t0 + days 31) ''Sell'' (- 1) (4278419646001971 / 2251799813685248) ''Gemi 4'',
        btc_row (t0 + days 375) ''Sell'' (- 1) (4278419646001971 / 2251799813685248) ''Gemi 7'',
        btc_row (t0 + days 550) ''Sell'' (- 1) (2476979795053773 / 2251799813685248) ''Gemi 8''])]"

definition rounding_updates :: "(int \<times> bool \<times> rat) list" where
  "rounding_updates =
     [(2020, True, 1351079888211149 / 4503599627370496), (2020, False, 2026619832316723 / 2251799813685248),
      (2021, True, 2026619832316723 / 2251799813685248), (2021, False, 225179981368525 / 2251799813685248)]"

section \<open>Properties of one iteration\<close>

subsection \<open>The two branches\<close>

lemma margin_test_iff:
  "margin_test bq s \<longleftrightarrow> bq = [] \<or> Timestamp (hd bq) > Timestamp s + seconds 15"
  by (cases bq) (simp_all add: margin_test_def)

lemma fifo_branch_margin:
  "margin_test (BUY st) s \<Longrightarrow> fifo_branch a s st = margin_branch a s st"
  by (simp add: fifo_branch_def margin_test_def split: list.splits)

lemma fifo_branch_match:
  "BUY st = b # bq \<Longrightarrow> \<not> margin_test (BUY st) s \<Longrightarrow>
   fifo_branch a s st = match_branch a s b bq st"
  by (simp add: fifo_branch_def margin_test_def)

lemma set_gain_margin_match [simp]: "set_gain (margin_match a s) = margin_match a s"
  by (simp add: set_gain_def margin_match_def)

lemma set_gain_fifo_lot [simp]: "set_gain (fifo_lot a b s u sp ba) = fifo_lot a b s u sp ba"
  by (simp add: set_gain_def fifo_lot_def)

lemma match_and_emit_margin:
  assumes "margin_test (BUY st) s"
  shows "match_and_emit a s st =
           (s, margin_match a s,
            emit_match (margin_match a s) (st\<lparr>margin := margin st @ [margin_match a s]\<rparr>))"
  by (simp add: match_and_emit_def fifo_branch_margin [OF assms] margin_branch_def)

text \<open>
  C9. For every popped sale \<open>s\<close>, lines 134 to 200 take the margin outcome (a record is
  appended to the margin dataframe) if and only if the purchase deque is empty or its
  earliest purchase is later than \<open>s\<close> by more than 15 seconds; the record then has the
  units \<open>|s.Units|\<close>, the sale price \<open>s.Total Amount\<close>, basis 0, a gain equal to the sale
  price (also after line 203), and both dates equal to the timestamp of \<open>s\<close>; neither
  deque changes.
\<close>

theorem margin_outcome:
  assumes "fifo_branch a s st = (sell_tx, m, st')"
  shows "(margin st' \<noteq> margin st \<longleftrightarrow>
            BUY st = [] \<or> Timestamp (hd (BUY st)) > Timestamp s + seconds 15) \<and>
         (BUY st = [] \<or> Timestamp (hd (BUY st)) > Timestamp s + seconds 15 \<longrightarrow>
            margin st' = margin st @ [m] \<and> lot_Units m = \<bar>Units s\<bar> \<and>
            Sale_Price m = Total_Amount s \<and> Basis m = 0 \<and> Gain_Loss m = Sale_Price m \<and>
            Date_Purchased m = Timestamp s \<and> Date_Sold m = Timestamp s \<and>
            set_gain m = m \<and> BUY st' = BUY st \<and> SELL st' = SELL st)"
proof (cases "margin_test (BUY st) s")
  case True
  with assms have "sell_tx = s" "m = margin_match a s"
    "st' = st\<lparr>margin := margin st @ [margin_match a s]\<rparr>"
    by (auto simp: fifo_branch_margin margin_branch_def)
  with True show ?thesis
    by (simp add: margin_test_iff margin_match_def set_gain_def)
next
  case False
  then obtain b bq where bq: "BUY st = b # bq"
    by (cases "BUY st") (simp_all add: margin_test_def)
  from assms False bq have "match_branch a s b bq st = (sell_tx, m, st')"
    by (simp add: fifo_branch_match)
  then have "margin st' = margin st"
    by (auto simp: match_branch_def Let_def split: if_splits)
  with False show ?thesis
    by (simp add: margin_test_iff)
qed

theorem margin_outcome_witness:
  "fifo_branch ''BTC'' (btc_row t0 ''Sell'' (- 1 / 2) 5000 ''Gemi 1'') init_state =
     (btc_row t0 ''Sell'' (- 1 / 2) 5000 ''Gemi 1'',
      margin_match ''BTC'' (btc_row t0 ''Sell'' (- 1 / 2) 5000 ''Gemi 1''),
      init_state\<lparr>margin := [margin_match ''BTC'' (btc_row t0 ''Sell'' (- 1 / 2) 5000 ''Gemi 1'')]\<rparr>)
   \<and> BUY init_state = []
   \<and> lot_Units (margin_match ''BTC'' (btc_row t0 ''Sell'' (- 1 / 2) 5000 ''Gemi 1'')) = 1 / 2
   \<and> Basis (margin_match ''BTC'' (btc_row t0 ''Sell'' (- 1 / 2) 5000 ''Gemi 1'')) = 0
   \<and> Gain_Loss (margin_match ''BTC'' (btc_row t0 ''Sell'' (- 1 / 2) 5000 ''Gemi 1'')) = 5000"
proof -
  have h: "fifo_branch ''BTC'' (btc_row t0 ''Sell'' (- 1 / 2) 5000 ''Gemi 1'') init_state =
     (btc_row t0 ''Sell'' (- 1 / 2) 5000 ''Gemi 1'',
      margin_match ''BTC'' (btc_row t0 ''Sell'' (- 1 / 2) 5000 ''Gemi 1''),
      init_state\<lparr>margin := [margin_match ''BTC'' (btc_row t0 ''Sell'' (- 1 / 2) 5000 ''Gemi 1'')]\<rparr>)"
    by (simp add: fifo_branch_def margin_branch_def init_state_def)
  have e: "BUY init_state = []"
    by (simp add: init_state_def)
  from margin_outcome [OF h] e h show ?thesis
    by (simp add: btc_row_def)
qed


lemma match_branch_queues:
  assumes "match_branch a s b bq st = (sell_tx, m, st')"
  shows "fifo_asset st' = fifo_asset st \<and> margin st' = margin st \<and>
         volume_summary st' = volume_summary st \<and> year_summary st' = year_summary st \<and>
         fifo st' = fifo st \<and> Timestamp sell_tx = Timestamp s \<and> set_gain m = m \<and>
         (\<exists>b'. buy_tx st' = Some b' \<and> Timestamp b' = Timestamp b)"
  using assms by (auto simp: match_branch_def Let_def split: if_splits)

lemma emit_match_fields [simp]:
  "BUY (emit_match m st) = BUY st" "SELL (emit_match m st) = SELL st"
  "margin (emit_match m st) = margin st" "buy_tx (emit_match m st) = buy_tx st"
  "year_summary (emit_match m st) = year_summary st"
  "volume_summary (emit_match m st) = volume_summary st"
  "fifo (emit_match m st) = fifo st"
  "fifo_asset (emit_match m st) =
     (if \<bar>lot_Units m\<bar> > dust then fifo_asset st @ [Lot m] else fifo_asset st)"
  by (simp_all add: emit_match_def)

lemma update_summaries_Inr:
  assumes "update_summaries sell_tx m st = Inr st'"
  shows "BUY st' = BUY st" "SELL st' = SELL st" "margin st' = margin st"
    "buy_tx st' = buy_tx st" "fifo_asset st' = fifo_asset st" "fifo st' = fifo st"
  using assms by (auto simp: update_summaries_def Let_def split: option.splits)

lemma update_summaries_bound:
  "buy_tx st = Some b \<Longrightarrow> \<exists>st'. update_summaries sell_tx m st = Inr st'"
  by (simp add: update_summaries_def Let_def)

text \<open>
  C4. For a sale \<open>s\<close> that is matched to the earliest purchase \<open>b\<close>, the record and the
  deques follow the comparison of \<open>|s.Units|\<close> with \<open>b.Units\<close>: when the sale is larger the
  match takes the units and the whole cost of \<open>b\<close> and the share \<open>b.Units / |s.Units|\<close> of
  the proceeds, and \<open>s\<close>, with its units moved towards zero and its amount reduced by that
  share, goes back to the head of the sale deque; when the purchase is larger the match
  takes the units and the proceeds of \<open>s\<close> and the share \<open>|s.Units| / b.Units\<close> of the cost,
  and the reduced \<open>b\<close> goes back to the head of the purchase deque; when they are equal
  both are consumed. The gain is sale price minus basis, the iteration completes, and the
  record is a row of \<open>fifo[asset]\<close> when its units exceed the dust threshold.
\<close>

theorem match_by_magnitude:
  assumes "BUY st = b # bq" and "\<not> Timestamp b > Timestamp s + seconds 15"
    and "fifo_branch a s st = (sell_tx, m, st1)"
  shows "(\<bar>Units s\<bar> > Units b \<longrightarrow>
            lot_Units m = Units b \<and> Sale_Price m = Units b / \<bar>Units s\<bar> * Total_Amount s \<and>
            Basis m = Total_Amount b \<and> BUY st1 = bq \<and>
            SELL st1 = s\<lparr>Units := Units s + Units b,
                          Total_Amount := Total_Amount s - Sale_Price m\<rparr> # SELL st \<and>
            (Units s \<le> 0 \<and> 0 \<le> Units b \<longrightarrow> \<bar>Units s + Units b\<bar> = \<bar>Units s\<bar> - Units b)) \<and>
         (\<bar>Units s\<bar> < Units b \<longrightarrow>
            lot_Units m = \<bar>Units s\<bar> \<and> Sale_Price m = Total_Amount s \<and>
            Basis m = \<bar>Units s\<bar> / Units b * Total_Amount b \<and> SELL st1 = SELL st \<and>
            BUY st1 = b\<lparr>Units := Units b + Units s,
                         Total_Amount := Total_Amount b - Basis m\<rparr> # bq \<and>
            (Units s \<le> 0 \<longrightarrow> Units b + Units s = Units b - \<bar>Units s\<bar>)) \<and>
         (\<bar>Units s\<bar> = Units b \<longrightarrow>
            lot_Units m = Units b \<and> Sale_Price m = Total_Amount s \<and>
            Basis m = Total_Amount b \<and> BUY st1 = bq \<and> SELL st1 = SELL st) \<and>
         Gain_Loss m = Sale_Price m - Basis m \<and>
         Date_Purchased m = Timestamp b \<and> Date_Sold m = Timestamp s \<and>
         (\<exists>st'. sell_iter a s st = Inr st' \<and> BUY st' = BUY st1 \<and> SELL st' = SELL st1 \<and>
            margin st' = margin st \<and>
            fifo_asset st' =
              (if \<bar>lot_Units m\<bar> > dust then fifo_asset st @ [Lot m] else fifo_asset st))"
proof -
  from assms have mb: "match_branch a s b bq st = (sell_tx, m, st1)"
    by (simp add: fifo_branch_def)
  from match_branch_queues [OF mb] obtain b' where
    q: "fifo_asset st1 = fifo_asset st" "margin st1 = margin st" "set_gain m = m"
    and b': "buy_tx st1 = Some b'"
    by blast
  from b' have "buy_tx (emit_match m st1) = Some b'"
    by simp
  from update_summaries_bound [OF this] obtain st' where
    u: "update_summaries sell_tx m (emit_match m st1) = Inr st'"
    by blast
  have it: "sell_iter a s st = Inr st'"
    using assms(3) u q(3) by (simp add: sell_iter_def match_and_emit_def)
  have fields: "BUY st' = BUY st1 \<and> SELL st' = SELL st1 \<and> margin st' = margin st \<and>
      fifo_asset st' =
        (if \<bar>lot_Units m\<bar> > dust then fifo_asset st @ [Lot m] else fifo_asset st)"
    using update_summaries_Inr [OF u] q by simp
  have branch: "(\<bar>Units s\<bar> > Units b \<longrightarrow>
            lot_Units m = Units b \<and> Sale_Price m = Units b / \<bar>Units s\<bar> * Total_Amount s \<and>
            Basis m = Total_Amount b \<and> BUY st1 = bq \<and>
            SELL st1 = s\<lparr>Units := Units s + Units b,
                          Total_Amount := Total_Amount s - Sale_Price m\<rparr> # SELL st) \<and>
         (\<bar>Units s\<bar> < Units b \<longrightarrow>
            lot_Units m = \<bar>Units s\<bar> \<and> Sale_Price m = Total_Amount s \<and>
            Basis m = \<bar>Units s\<bar> / Units b * Total_Amount b \<and> SELL st1 = SELL st \<and>
            BUY st1 = b\<lparr>Units := Units b + Units s,
                         Total_Amount := Total_Amount b - Basis m\<rparr> # bq) \<and>
         (\<bar>Units s\<bar> = Units b \<longrightarrow>
            lot_Units m = Units b \<and> Sale_Price m = Total_Amount s \<and>
            Basis m = Total_Amount b \<and> BUY st1 = bq \<and> SELL st1 = SELL st) \<and>
         Gain_Loss m = Sale_Price m - Basis m \<and>
         Date_Purchased m = Timestamp b \<and> Date_Sold m = Timestamp s"
    using mb by (auto simp: match_branch_def fifo_lot_def Let_def split: if_splits)
  have arith: "(Units s \<le> 0 \<and> 0 \<le> Units b \<and> \<bar>Units s\<bar> > Units b \<longrightarrow>
                  \<bar>Units s + Units b\<bar> = \<bar>Units s\<bar> - Units b) \<and>
               (Units s \<le> 0 \<longrightarrow> Units b + Units s = Units b - \<bar>Units s\<bar>)"
    by auto
  from it fields branch arith show ?thesis
    by blast
qed

theorem match_by_magnitude_witness:
  "BUY (init_state\<lparr>BUY := [partial_buy]\<rparr>) = [partial_buy] \<and>
   \<not> Timestamp partial_buy > Timestamp partial_sale + seconds 15 \<and>
   \<bar>Units partial_sale\<bar> < Units partial_buy \<and> Units partial_sale \<le> 0 \<and>
   lot_Units (fst (snd (fifo_branch ''BTC'' partial_sale (init_state\<lparr>BUY := [partial_buy]\<rparr>)))) = 1 \<and>
   Sale_Price (fst (snd (fifo_branch ''BTC'' partial_sale (init_state\<lparr>BUY := [partial_buy]\<rparr>)))) = 11000 \<and>
   Basis (fst (snd (fifo_branch ''BTC'' partial_sale (init_state\<lparr>BUY := [partial_buy]\<rparr>)))) = 10000 \<and>
   Gain_Loss (fst (snd (fifo_branch ''BTC'' partial_sale (init_state\<lparr>BUY := [partial_buy]\<rparr>)))) = 1000 \<and>
   BUY (snd (snd (fifo_branch ''BTC'' partial_sale (init_state\<lparr>BUY := [partial_buy]\<rparr>)))) =
     [partial_buy\<lparr>Units := 1, Total_Amount := 10000\<rparr>]"
proof -
  let ?st = "init_state\<lparr>BUY := [partial_buy]\<rparr>"
  let ?r = "fifo_branch ''BTC'' partial_sale ?st"
  have h1: "BUY ?st = [partial_buy]"
    by simp
  have h2: "\<not> Timestamp partial_buy > Timestamp partial_sale + seconds 15"
    by (simp add: partial_buy_def partial_sale_def btc_row_def t0_def days_def seconds_def)
  have h3: "?r = (fst ?r, fst (snd ?r), snd (snd ?r))"
    by simp
  have u: "\<bar>Units partial_sale\<bar> < Units partial_buy" "Units partial_sale \<le> 0"
    "\<bar>Units partial_sale\<bar> = 1" "Units partial_buy = 2" "Total_Amount partial_buy = 20000"
    "Total_Amount partial_sale = 11000" "Units partial_sale = - 1"
    by (simp_all add: partial_buy_def partial_sale_def btc_row_def)
  from match_by_magnitude [OF h1 h2 h3] h1 h2 u show ?thesis
    by simp
qed

text \<open>
  C1, as stated, fails: on the ledger of one purchase, its sale and a later uncovered sale,
  the margin record of the uncovered sale is the single row of the margin dataframe and is
  also the second row of the table of its asset.
\<close>

theorem margin_lot_in_asset_table:
  "run ledger_covered_then_margin =
     Inr \<lparr>BUY = [], SELL = [],
          fifo_asset = [Lot (fifo_lot ''BTC'' covered_buy covered_sale 1 12000 10000),
                        Lot (margin_match ''BTC'' uncovered_sale)],
          volume_summary = \<lparr>vol_Gain_Loss = 7000, vol_Sale_Price = 17000, vol_Basis = 10000,
                             vol_Remainder_Units = 0, vol_Remainder_Basis = 0\<rparr>,
          fifo = [(''BTC'',
                   [Lot (fifo_lot ''BTC'' covered_buy covered_sale 1 12000 10000),
                    Lot (margin_match ''BTC'' uncovered_sale),
                    Volume \<lparr>vol_Gain_Loss = 7000, vol_Sale_Price = 17000, vol_Basis = 10000,
                             vol_Remainder_Units = 0, vol_Remainder_Basis = 0\<rparr>])],
          margin = [margin_match ''BTC'' uncovered_sale],
          year_summary =
            \<lparr>totals = \<lparr>STCG = 0, STCL = 0, LTCG = 7000, LTCL = 0, Net_CG = 7000\<rparr>,
             years = [(2021, \<lparr>STCG = 0, STCL = 0, LTCG = 7000, LTCL = 0, Net_CG = 7000\<rparr>)]\<rparr>,
          buy_tx = Some covered_buy\<rparr>"
  by code_simp

text \<open>
  C1, amended. A sale that meets the margin test yields exactly one record appended to the
  margin dataframe; lines 205 to 208 append the same record to \<open>fifo[asset]\<close> as well when
  its units exceed the dust threshold, and leave \<open>fifo[asset]\<close> unchanged otherwise.
\<close>

theorem margin_lot_tables:
  assumes "BUY st = [] \<or> Timestamp (hd (BUY st)) > Timestamp s + seconds 15"
    and "match_and_emit a s st = (sell_tx, m, st')"
  shows "m = margin_match a s \<and> margin st' = margin st @ [m] \<and>
         fifo_asset st' =
           (if \<bar>Units s\<bar> > dust then fifo_asset st @ [Lot m] else fifo_asset st) \<and>
         BUY st' = BUY st \<and> SELL st' = SELL st"
proof -
  from assms(1) have "margin_test (BUY st) s"
    by (simp add: margin_test_iff)
  from match_and_emit_margin [OF this, of a] assms(2) show ?thesis
    by (auto simp: margin_match_def)
qed

theorem margin_lot_tables_witness:
  "BUY init_state = [] \<and>
   match_and_emit ''BTC'' uncovered_sale init_state =
     (uncovered_sale, margin_match ''BTC'' uncovered_sale,
      init_state\<lparr>margin := [margin_match ''BTC'' uncovered_sale],
                  fifo_asset := [Lot (margin_match ''BTC'' uncovered_sale)]\<rparr>)"
proof -
  let ?r = "match_and_emit ''BTC'' uncovered_sale init_state"
  have h1: "BUY init_state = [] \<or>
      Timestamp (hd (BUY init_state)) > Timestamp uncovered_sale + seconds 15"
    by (simp add: init_state_def)
  have h2: "?r = (fst ?r, fst (snd ?r), snd (snd ?r))"
    by simp
  have d: "\<bar>Units uncovered_sale\<bar> > dust"
    by (simp add: uncovered_sale_def btc_row_def dust_def)
  have e: "?r = (uncovered_sale, margin_match ''BTC'' uncovered_sale,
      init_state\<lparr>margin := [margin_match ''BTC'' uncovered_sale],
                  fifo_asset := [Lot (margin_match ''BTC'' uncovered_sale)]\<rparr>)"
    using d by (simp add: match_and_emit_def fifo_branch_def margin_branch_def
        init_state_def emit_match_def margin_match_def set_gain_def)
  from margin_lot_tables [OF h1 h2] e show ?thesis
    by (simp add: init_state_def)
qed

text \<open>
  C3. The claim is that an uncovered sale never raises. When it is the first sale of the
  run no purchase has been popped, line 216 reads the unassigned name \<open>buy_tx\<close>, and the
  pass stops with a NameError.
\<close>

theorem first_margin_sale_raises: "run ledger_margin_first = Inl NameError"
  by code_simp

subsection \<open>The summaries\<close>

lemma add_gain_Net_CG [simp]: "Net_CG (add_gain short g b) = Net_CG b + g"
  by (simp add: add_gain_def)

lemma add_gain_long_gain:
  "0 < g \<Longrightarrow> LTCG (add_gain False g b) = LTCG b + g \<and> STCG (add_gain False g b) = STCG b
     \<and> STCL (add_gain False g b) = STCL b \<and> LTCL (add_gain False g b) = LTCL b"
  by (simp add: add_gain_def)

lemma add_gain_four:
  "STCG (add_gain short g b) + STCL (add_gain short g b) + LTCG (add_gain short g b) +
   LTCL (add_gain short g b) = STCG b + STCL b + LTCG b + LTCL b + g"
  by (simp add: add_gain_def)

lemma ensure_year_lookup:
  "map_of (years (ensure_year y ys)) y =
     Some (case map_of (years ys) y of None \<Rightarrow> new_bucket | Some b \<Rightarrow> b)"
  by (auto simp: ensure_year_def map_add_def)

lemma ensure_year_totals [simp]: "totals (ensure_year y ys) = totals ys"
  by (simp add: ensure_year_def)

lemma update_year_lookup:
  "map_of (years (update_year_summary y short g ys)) y =
     map_option (add_gain short g) (map_of (years ys) y)"
  by (simp add: update_year_summary_def map_of_map_entry split: option.splits)

lemma update_summaries_result:
  assumes "buy_tx st = Some b"
  shows "update_summaries sell_tx m st =
     Inr (st\<lparr>year_summary :=
               update_year_summary (year_of (Timestamp sell_tx))
                 (Timestamp sell_tx - Timestamp b < days 365) (Gain_Loss m)
                 (ensure_year (year_of (Timestamp sell_tx)) (year_summary st)),
             volume_summary :=
               (volume_summary st)
                 \<lparr>vol_Gain_Loss := vol_Gain_Loss (volume_summary st) + Gain_Loss m,
                  vol_Sale_Price := vol_Sale_Price (volume_summary st) + Sale_Price m,
                  vol_Basis := vol_Basis (volume_summary st) + Basis m\<rparr>\<rparr>)"
  using assms by (simp add: update_summaries_def Let_def)

lemma update_summaries_bound_iff:
  "update_summaries sell_tx m st = Inr st' \<Longrightarrow> \<exists>b. buy_tx st = Some b"
  by (cases "buy_tx st") (simp_all add: update_summaries_def Let_def)

lemma sell_iter_margin:
  assumes "margin_test (BUY st) s" and "buy_tx st = Some b"
  shows "sell_iter a s st =
     update_summaries s (margin_match a s)
       (emit_match (margin_match a s) (st\<lparr>margin := margin st @ [margin_match a s]\<rparr>))"
  by (simp add: sell_iter_def match_and_emit_margin [OF assms(1)])

lemma match_and_emit_match:
  assumes "BUY st = b # bq" and "\<not> margin_test (BUY st) s"
    and "match_branch a s b bq st = (sell_tx, m, st1)"
  shows "match_and_emit a s st = (sell_tx, m, emit_match m st1)"
  using assms match_branch_queues [OF assms(3)]
  by (simp add: match_and_emit_def fifo_branch_match)

lemma sell_iter_match:
  assumes "BUY st = b # bq" and "\<not> margin_test (BUY st) s"
  shows "\<exists>st' b'. sell_iter a s st = Inr st' \<and> buy_tx st' = Some b' \<and>
           Timestamp b' = Timestamp b"
proof -
  obtain sell_tx m st1 where mb: "match_branch a s b bq st = (sell_tx, m, st1)"
    by (cases "match_branch a s b bq st") auto
  from match_branch_queues [OF mb] obtain b' where
    b': "buy_tx st1 = Some b'" "Timestamp b' = Timestamp b"
    by blast
  then have e: "buy_tx (emit_match m st1) = Some b'"
    by simp
  have "sell_iter a s st = update_summaries sell_tx m (emit_match m st1)"
    by (simp add: sell_iter_def match_and_emit_match [OF assms mb])
  with update_summaries_result [OF e] b' show ?thesis
    by simp
qed

text \<open>
  C10. An iteration that takes the margin branch while \<open>buy_tx\<close> is bound leaves \<open>buy_tx\<close>
  as it was and adds the sale's proceeds to the year summary under the class that line 216
  computes from the timestamp of \<open>buy_tx\<close>, not from the dates of the margin record (which
  are equal): when that purchase is at least 365 days older than the sale, positive
  proceeds are added to the long-term gains. \<open>buy_tx\<close> is the purchase popped last: a
  matched sale binds it to the purchase it pops (reduced or not, with the same timestamp),
  and so does an iteration of the carryover loop, for whatever asset.
\<close>

theorem margin_classified_by_last_purchase:
  assumes "BUY st = [] \<or> Timestamp (hd (BUY st)) > Timestamp s + seconds 15"
    and "buy_tx st = Some b"
  shows "(\<exists>st'. sell_iter a s st = Inr st' \<and> buy_tx st' = Some b \<and>
            year_summary st' =
              update_year_summary (year_of (Timestamp s))
                (Timestamp s - Timestamp b < days 365) (Total_Amount s)
                (ensure_year (year_of (Timestamp s)) (year_summary st)) \<and>
            (days 365 \<le> Timestamp s - Timestamp b \<and> 0 < Total_Amount s \<longrightarrow>
               LTCG (totals (year_summary st')) =
                 LTCG (totals (year_summary st)) + Total_Amount s \<and>
               STCG (totals (year_summary st')) = STCG (totals (year_summary st)))) \<and>
         Date_Sold (margin_match a s) - Date_Purchased (margin_match a s) = 0 \<and>
         (BUY st2 = b2 # bq2 \<and> \<not> Timestamp b2 > Timestamp s2 + seconds 15 \<longrightarrow>
            (\<exists>st' b'. sell_iter a s2 st2 = Inr st' \<and> buy_tx st' = Some b' \<and>
               Timestamp b' = Timestamp b2)) \<and>
         buy_tx (carry_iter a b3 st3) = Some b3"
proof -
  from assms(1) have mt: "margin_test (BUY st) s"
    by (simp add: margin_test_iff)
  let ?st1 = "emit_match (margin_match a s) (st\<lparr>margin := margin st @ [margin_match a s]\<rparr>)"
  have bt: "buy_tx ?st1 = Some b"
    using assms(2) by simp
  have g: "Gain_Loss (margin_match a s) = Total_Amount s"
    by (simp add: margin_match_def)
  have part1: "\<exists>st'. sell_iter a s st = Inr st' \<and> buy_tx st' = Some b \<and>
            year_summary st' =
              update_year_summary (year_of (Timestamp s))
                (Timestamp s - Timestamp b < days 365) (Total_Amount s)
                (ensure_year (year_of (Timestamp s)) (year_summary st)) \<and>
            (days 365 \<le> Timestamp s - Timestamp b \<and> 0 < Total_Amount s \<longrightarrow>
               LTCG (totals (year_summary st')) =
                 LTCG (totals (year_summary st)) + Total_Amount s \<and>
               STCG (totals (year_summary st')) = STCG (totals (year_summary st)))"
    using bt
    by (simp add: sell_iter_margin [OF mt assms(2)] update_summaries_result [OF bt] g
        update_year_summary_def add_gain_long_gain)
  have part2: "Date_Sold (margin_match a s) - Date_Purchased (margin_match a s) = 0"
    by (simp add: margin_match_def)
  have part3: "BUY st2 = b2 # bq2 \<and> \<not> Timestamp b2 > Timestamp s2 + seconds 15 \<longrightarrow>
            (\<exists>st' b'. sell_iter a s2 st2 = Inr st' \<and> buy_tx st' = Some b' \<and>
               Timestamp b' = Timestamp b2)"
  proof
    assume h: "BUY st2 = b2 # bq2 \<and> \<not> Timestamp b2 > Timestamp s2 + seconds 15"
    then have "\<not> margin_test (BUY st2) s2"
      by (simp add: margin_test_def)
    with h sell_iter_match [of st2 b2 bq2 s2 a] show
      "\<exists>st' b'. sell_iter a s2 st2 = Inr st' \<and> buy_tx st' = Some b' \<and>
         Timestamp b' = Timestamp b2"
      by blast
  qed
  have part4: "buy_tx (carry_iter a b3 st3) = Some b3"
    by (simp add: carry_iter_def Let_def)
  from part1 part2 part3 part4 show ?thesis
    by blast
qed


theorem margin_classified_by_last_purchase_witness:
  "BUY (init_state\<lparr>buy_tx := Some covered_buy\<rparr>) = [] \<and>
   days 365 \<le> Timestamp uncovered_sale - Timestamp covered_buy \<and>
   0 < Total_Amount uncovered_sale \<and>
   (\<exists>st'. sell_iter ''BTC'' uncovered_sale (init_state\<lparr>buy_tx := Some covered_buy\<rparr>) = Inr st' \<and>
      LTCG (totals (year_summary st')) = 5000 \<and> STCG (totals (year_summary st')) = 0) \<and>
   BUY (init_state\<lparr>BUY := [covered_buy]\<rparr>) = [covered_buy] \<and>
   \<not> Timestamp covered_buy > Timestamp covered_sale + seconds 15 \<and>
   (\<exists>st' b'. sell_iter ''BTC'' covered_sale (init_state\<lparr>BUY := [covered_buy]\<rparr>) = Inr st' \<and>
      buy_tx st' = Some b' \<and> Timestamp b' = Timestamp covered_buy)"
proof -
  let ?st = "init_state\<lparr>buy_tx := Some covered_buy\<rparr>"
  let ?st2 = "init_state\<lparr>BUY := [covered_buy]\<rparr>"
  have h1: "BUY ?st = [] \<or> Timestamp (hd (BUY ?st)) > Timestamp uncovered_sale + seconds 15"
    by (simp add: init_state_def)
  have h2: "buy_tx ?st = Some covered_buy"
    by simp
  have h3: "days 365 \<le> Timestamp uncovered_sale - Timestamp covered_buy"
    by (simp add: uncovered_sale_def covered_buy_def btc_row_def days_def)
  have h4: "0 < Total_Amount uncovered_sale" "Total_Amount uncovered_sale = 5000"
    by (simp_all add: uncovered_sale_def btc_row_def)
  have h5: "BUY ?st2 = [covered_buy]"
    by simp
  have h6: "\<not> Timestamp covered_buy > Timestamp covered_sale + seconds 15"
    by (simp add: covered_sale_def covered_buy_def btc_row_def days_def seconds_def)
  have z: "LTCG (totals (year_summary ?st)) = 0" "STCG (totals (year_summary ?st)) = 0"
    "BUY ?st = []"
    by (simp_all add: init_state_def new_bucket_def)
  from margin_classified_by_last_purchase
    [OF h1 h2, of "''BTC''" ?st2 covered_buy "[]" covered_sale]
    h3 h4 h5 h6 z
  show ?thesis
    by auto
qed

text \<open>
  C5. The claim is that a match is long-term exactly when its sale date is at least 365
  days after its purchase date. On the ledger of one purchase, its sale 400 days later and
  an uncovered sale a day after that, the margin record has equal dates and a gain of 5000,
  and the 5000 are added to the long-term gains of 2021 and of the totals.
\<close>

theorem margin_gain_bucketed_long_term:
  "margin (projr (run ledger_covered_then_margin)) = [margin_match ''BTC'' uncovered_sale] \<and>
   Date_Sold (margin_match ''BTC'' uncovered_sale) -
     Date_Purchased (margin_match ''BTC'' uncovered_sale) = 0 \<and>
   Gain_Loss (margin_match ''BTC'' uncovered_sale) = 5000 \<and>
   year_summary (projr (run ledger_covered_then_margin)) =
     \<lparr>totals = \<lparr>STCG = 0, STCL = 0, LTCG = 7000, LTCL = 0, Net_CG = 7000\<rparr>,
      years = [(2021, \<lparr>STCG = 0, STCL = 0, LTCG = 7000, LTCL = 0, Net_CG = 7000\<rparr>)]\<rparr>"
  by code_simp

text \<open>
  C7, as stated, fails: on the ledger of one purchase, its sale and an uncovered sale of
  \<open>2^-30\<close> units, the margin record has units below the dust threshold and is a row of
  the margin dataframe.
\<close>

theorem dust_margin_lot_emitted:
  "\<bar>lot_Units (margin_match ''BTC'' dust_sale)\<bar> \<le> dust \<and>
   \<not> isl (run ledger_dust_margin) \<and>
   margin (projr (run ledger_dust_margin)) = [margin_match ''BTC'' dust_sale]"
  by code_simp

lemma fifo_branch_sell_tx:
  "fifo_branch a s st = (sell_tx, m, st1) \<Longrightarrow> Timestamp sell_tx = Timestamp s"
  by (auto simp: fifo_branch_def margin_branch_def match_branch_def Let_def
           split: list.splits if_splits)

lemma fifo_branch_untouched:
  "fifo_branch a s st = (sell_tx, m, st1) \<Longrightarrow>
     fifo_asset st1 = fifo_asset st \<and> volume_summary st1 = volume_summary st \<and>
     year_summary st1 = year_summary st \<and> fifo st1 = fifo st"
  by (auto simp: fifo_branch_def margin_branch_def match_branch_def Let_def
           split: list.splits if_splits)

text \<open>
  C7, amended. For an iteration of the sell loop that completes, the record is a row of
  \<open>fifo[asset]\<close> exactly when its units exceed the dust threshold; a margin record is
  appended to the margin dataframe whatever its units; and in either case its gain, sale
  price and basis are added to the volume summary of the asset, and its gain to the net
  gain and to one of the four classes of the totals and to the net gain of the year of the
  sale.
\<close>

theorem dust_filter_and_aggregates:
  assumes "match_and_emit a s st = (sell_tx, m, st1)" and "sell_iter a s st = Inr st'"
  shows "(\<bar>lot_Units m\<bar> \<le> dust \<longrightarrow> fifo_asset st' = fifo_asset st) \<and>
         (\<bar>lot_Units m\<bar> > dust \<longrightarrow> fifo_asset st' = fifo_asset st @ [Lot m]) \<and>
         (BUY st = [] \<or> Timestamp (hd (BUY st)) > Timestamp s + seconds 15 \<longrightarrow>
            margin st' = margin st @ [m]) \<and>
         vol_Gain_Loss (volume_summary st') = vol_Gain_Loss (volume_summary st) + Gain_Loss m \<and>
         vol_Sale_Price (volume_summary st') = vol_Sale_Price (volume_summary st) + Sale_Price m \<and>
         vol_Basis (volume_summary st') = vol_Basis (volume_summary st) + Basis m \<and>
         Net_CG (totals (year_summary st')) = Net_CG (totals (year_summary st)) + Gain_Loss m \<and>
         STCG (totals (year_summary st')) + STCL (totals (year_summary st')) +
           LTCG (totals (year_summary st')) + LTCL (totals (year_summary st')) =
         STCG (totals (year_summary st)) + STCL (totals (year_summary st)) +
           LTCG (totals (year_summary st)) + LTCL (totals (year_summary st)) + Gain_Loss m \<and>
         (\<exists>b'. map_of (years (year_summary st')) (year_of (Timestamp s)) = Some b' \<and>
            Net_CG b' =
              (case map_of (years (year_summary st)) (year_of (Timestamp s)) of
                 None \<Rightarrow> 0 | Some b \<Rightarrow> Net_CG b) + Gain_Loss m)"
proof -
  obtain m0 st0 where fb: "fifo_branch a s st = (sell_tx, m0, st0)"
    and m: "m = set_gain m0" and st1: "st1 = emit_match m st0"
    using assms(1) by (auto simp: match_and_emit_def split: prod.splits)
  note ts = fifo_branch_sell_tx [OF fb]
  note un = fifo_branch_untouched [OF fb]
  from assms have u: "update_summaries sell_tx m st1 = Inr st'"
    by (simp add: sell_iter_def)
  from update_summaries_bound_iff [OF u] obtain b where b: "buy_tx st1 = Some b"
    by blast
  note r = update_summaries_result [OF b, of sell_tx m]
  from u r have st': "st' = st1\<lparr>year_summary :=
               update_year_summary (year_of (Timestamp sell_tx))
                 (Timestamp sell_tx - Timestamp b < days 365) (Gain_Loss m)
                 (ensure_year (year_of (Timestamp sell_tx)) (year_summary st1)),
             volume_summary :=
               (volume_summary st1)
                 \<lparr>vol_Gain_Loss := vol_Gain_Loss (volume_summary st1) + Gain_Loss m,
                  vol_Sale_Price := vol_Sale_Price (volume_summary st1) + Sale_Price m,
                  vol_Basis := vol_Basis (volume_summary st1) + Basis m\<rparr>\<rparr>"
    by simp
  have table: "fifo_asset st' =
      (if \<bar>lot_Units m\<bar> > dust then fifo_asset st @ [Lot m] else fifo_asset st)"
    using st' st1 un by simp
  have mg: "BUY st = [] \<or> Timestamp (hd (BUY st)) > Timestamp s + seconds 15 \<longrightarrow>
      margin st' = margin st @ [m]"
  proof
    assume "BUY st = [] \<or> Timestamp (hd (BUY st)) > Timestamp s + seconds 15"
    then have "margin_test (BUY st) s"
      by (simp add: margin_test_iff)
    from match_and_emit_margin [OF this, of a] assms(1) st' show "margin st' = margin st @ [m]"
      by auto
  qed
  have vol: "vol_Gain_Loss (volume_summary st') = vol_Gain_Loss (volume_summary st) + Gain_Loss m"
    "vol_Sale_Price (volume_summary st') = vol_Sale_Price (volume_summary st) + Sale_Price m"
    "vol_Basis (volume_summary st') = vol_Basis (volume_summary st) + Basis m"
    using st' st1 un by simp_all
  have ys: "year_summary st' = update_year_summary (year_of (Timestamp s))
                 (Timestamp sell_tx - Timestamp b < days 365) (Gain_Loss m)
                 (ensure_year (year_of (Timestamp s)) (year_summary st))"
    using st' st1 un ts by simp
  have net: "Net_CG (totals (year_summary st')) = Net_CG (totals (year_summary st)) + Gain_Loss m"
    by (simp add: ys update_year_summary_def)
  have four: "STCG (totals (year_summary st')) + STCL (totals (year_summary st')) +
           LTCG (totals (year_summary st')) + LTCL (totals (year_summary st')) =
         STCG (totals (year_summary st)) + STCL (totals (year_summary st)) +
           LTCG (totals (year_summary st)) + LTCL (totals (year_summary st)) + Gain_Loss m"
    by (simp add: ys update_year_summary_def add_gain_four)
  have yr: "\<exists>b'. map_of (years (year_summary st')) (year_of (Timestamp s)) = Some b' \<and>
            Net_CG b' =
              (case map_of (years (year_summary st)) (year_of (Timestamp s)) of
                 None \<Rightarrow> 0 | Some b \<Rightarrow> Net_CG b) + Gain_Loss m"
    by (simp add: ys update_year_lookup ensure_year_lookup new_bucket_def split: option.splits)
  from table mg vol net four yr show ?thesis
    by simp
qed

theorem dust_filter_and_aggregates_witness:
  "\<bar>lot_Units (margin_match ''BTC'' dust_sale)\<bar> \<le> dust \<and>
   BUY (init_state\<lparr>buy_tx := Some covered_buy\<rparr>) = [] \<and>
   (\<exists>st'. sell_iter ''BTC'' dust_sale (init_state\<lparr>buy_tx := Some covered_buy\<rparr>) = Inr st' \<and>
      fifo_asset st' = [] \<and> margin st' = [margin_match ''BTC'' dust_sale] \<and>
      vol_Sale_Price (volume_summary st') = 1 \<and> Net_CG (totals (year_summary st')) = 1)"
proof -
  let ?st = "init_state\<lparr>buy_tx := Some covered_buy\<rparr>"
  let ?m = "margin_match ''BTC'' dust_sale"
  let ?st1 = "emit_match ?m (?st\<lparr>margin := margin ?st @ [?m]\<rparr>)"
  have mt: "margin_test (BUY ?st) dust_sale"
    by (simp add: margin_test_def init_state_def)
  have h1: "match_and_emit ''BTC'' dust_sale ?st = (dust_sale, ?m, ?st1)"
    by (rule match_and_emit_margin [OF mt])
  have bt: "buy_tx ?st1 = Some covered_buy"
    by simp
  obtain st' where h2: "sell_iter ''BTC'' dust_sale ?st = Inr st'"
    using update_summaries_bound [OF bt, of dust_sale ?m]
    by (auto simp: sell_iter_def h1)
  have d: "\<bar>lot_Units ?m\<bar> \<le> dust" "Gain_Loss ?m = 1" "Sale_Price ?m = 1"
    by (simp_all add: margin_match_def dust_sale_def btc_row_def dust_def)
  have z: "BUY ?st = []" "fifo_asset ?st = []" "margin ?st = []"
    "vol_Sale_Price (volume_summary ?st) = 0" "Net_CG (totals (year_summary ?st)) = 0"
    by (simp_all add: init_state_def new_volume_def new_bucket_def)
  from dust_filter_and_aggregates [OF h1 h2] d z h2 show ?thesis
    by auto
qed

section \<open>Consistency of the year summary\<close>

declare sell_loop.simps [simp del]

declare carry_loop.simps [simp del]

lemma bucket_ok_new [simp]: "bucket_ok new_bucket"
  by (simp add: bucket_ok_def new_bucket_def)

lemma bucket_ok_add_gain: "bucket_ok b \<Longrightarrow> bucket_ok (add_gain short g b)"
  by (simp add: bucket_ok_def add_gain_def)

lemma list_all_map_entry:
  "list_all (\<lambda>e. P (snd e)) xs \<Longrightarrow> (\<And>v. P v \<Longrightarrow> P (h v)) \<Longrightarrow>
   list_all (\<lambda>e. P (snd e)) (AList.map_entry k h xs)"
  by (induction xs) auto

lemma sum_map_entry:
  assumes "map_of xs k \<noteq> None" and "\<And>v. f (h v) = f v + (d::rat)"
  shows "sum_list (map (\<lambda>e. f (snd e)) (AList.map_entry k h xs)) =
         sum_list (map (\<lambda>e. f (snd e)) xs) + d"
  using assms(1)
proof (induction xs)
  case Nil
  then show ?case by simp
next
  case (Cons e xs)
  then show ?case
    by (cases e) (auto simp: assms(2))
qed

lemma add_gain_fields:
  "STCG (add_gain short g b) = STCG b + (if short \<and> g > 0 then g else 0)"
  "STCL (add_gain short g b) = STCL b + (if short \<and> \<not> g > 0 then g else 0)"
  "LTCG (add_gain short g b) = LTCG b + (if \<not> short \<and> g > 0 then g else 0)"
  "LTCL (add_gain short g b) = LTCL b + (if \<not> short \<and> \<not> g > 0 then g else 0)"
  by (simp_all add: add_gain_def)

lemma ysummary_ok_ensure_year: "ysummary_ok ys \<Longrightarrow> ysummary_ok (ensure_year y ys)"
  by (simp add: ysummary_ok_def ensure_year_def totals_ok_def year_sum_def new_bucket_def
      bucket_ok_def)

lemma ysummary_ok_update:
  assumes "ysummary_ok ys" and "map_of (years ys) y \<noteq> None"
  shows "ysummary_ok (update_year_summary y short g ys)"
proof -
  let ?ys = "update_year_summary y short g ys"
  have t: "bucket_ok (totals ?ys)"
    using assms(1) by (simp add: update_year_summary_def ysummary_ok_def bucket_ok_add_gain)
  have a: "list_all (\<lambda>e. bucket_ok (snd e)) (years ?ys)"
    using assms(1)
    by (simp add: update_year_summary_def ysummary_ok_def list_all_map_entry bucket_ok_add_gain)
  have s: "year_sum f ?ys = year_sum f ys + d"
    if "\<And>v. f (add_gain short g v) = f v + d" for f d
    using sum_map_entry [OF assms(2), of f "add_gain short g" d] that
    by (simp add: year_sum_def update_year_summary_def)
  have "totals_ok ?ys"
    unfolding totals_ok_def
  proof (intro conjI)
    show "STCG (totals ?ys) = year_sum STCG ?ys"
      using assms(1) s [of STCG, OF add_gain_fields(1)]
      by (simp add: ysummary_ok_def totals_ok_def update_year_summary_def add_gain_fields(1))
    show "STCL (totals ?ys) = year_sum STCL ?ys"
      using assms(1) s [of STCL, OF add_gain_fields(2)]
      by (simp add: ysummary_ok_def totals_ok_def update_year_summary_def add_gain_fields(2))
    show "LTCG (totals ?ys) = year_sum LTCG ?ys"
      using assms(1) s [of LTCG, OF add_gain_fields(3)]
      by (simp add: ysummary_ok_def totals_ok_def update_year_summary_def add_gain_fields(3))
    show "LTCL (totals ?ys) = year_sum LTCL ?ys"
      using assms(1) s [of LTCL, OF add_gain_fields(4)]
      by (simp add: ysummary_ok_def totals_ok_def update_year_summary_def add_gain_fields(4))
    show "Net_CG (totals ?ys) = year_sum Net_CG ?ys"
      using assms(1) s [of Net_CG, OF add_gain_Net_CG]
      by (simp add: ysummary_ok_def totals_ok_def update_year_summary_def)
  qed
  with t a show ?thesis
    by (simp add: ysummary_ok_def)
qed

lemma match_and_emit_year_summary:
  "match_and_emit a s st = (sell_tx, m, st1) \<Longrightarrow> year_summary st1 = year_summary st"
  by (auto simp: match_and_emit_def split: prod.splits dest: fifo_branch_untouched)

lemma add_gain_r_exact:
  "exact_update r short g b \<Longrightarrow> add_gain_r r short g b = add_gain short g b"
  by (auto simp: exact_update_def gain_class_def add_gain_r_def add_gain_def)

lemma add_gain_r_id: "add_gain_r (\<lambda>x. x) short g b = add_gain short g b"
  by (simp add: add_gain_r_def add_gain_def)

lemma map_entry_cong_found:
  "map_of xs k = Some v \<Longrightarrow> f v = h v \<Longrightarrow> AList.map_entry k f xs = AList.map_entry k h xs"
  by (induction xs) (auto split: if_splits)

lemma year_bucket_ensure:
  "map_of (years (ensure_year y ys)) y = Some (year_bucket y ys)"
  by (simp add: ensure_year_lookup year_bucket_def)

lemma year_update_exact:
  assumes "exact_update r short g (totals ys)" and "exact_update r short g (year_bucket y ys)"
  shows "year_update r y short g ys = update_year_summary y short g (ensure_year y ys)"
  using assms map_entry_cong_found [OF year_bucket_ensure, of "add_gain_r r short g" y ys
      "add_gain short g"]
  by (simp add: year_update_def update_year_summary_def add_gain_r_exact)

lemma year_update_id:
  "year_update (\<lambda>x. x) y short g ys = update_year_summary y short g (ensure_year y ys)"
  by (rule year_update_exact) (simp_all add: exact_update_def)

lemma sell_iter_year_update:
  assumes "sell_iter a s st = Inr st'"
  shows "\<exists>short g. year_summary st' =
           year_update (\<lambda>x. x) (year_of (Timestamp s)) short g (year_summary st)"
proof -
  obtain sell_tx m st1 where me: "match_and_emit a s st = (sell_tx, m, st1)"
    by (cases "match_and_emit a s st") auto
  from assms me have u: "update_summaries sell_tx m st1 = Inr st'"
    by (simp add: sell_iter_def)
  from update_summaries_bound_iff [OF u] obtain b where b: "buy_tx st1 = Some b"
    by blast
  from me have ts: "Timestamp sell_tx = Timestamp s"
    by (auto simp: match_and_emit_def split: prod.splits dest: fifo_branch_sell_tx)
  from u update_summaries_result [OF b, of sell_tx m] match_and_emit_year_summary [OF me] ts
  have "year_summary st' = update_year_summary (year_of (Timestamp s))
      (Timestamp sell_tx - Timestamp b < days 365) (Gain_Loss m)
      (ensure_year (year_of (Timestamp s)) (year_summary st))"
    by auto
  then show ?thesis
    by (auto simp: year_update_id)
qed

lemma carry_iter_year_summary: "year_summary (carry_iter a b st) = year_summary st"
  by (simp add: carry_iter_def Let_def)

lemma ysummary_ok_init: "ysummary_ok (year_summary init_state)"
  by (simp add: init_state_def ysummary_ok_def totals_ok_def year_sum_def bucket_ok_def
      new_bucket_def)




section \<open>Termination of the sell loop\<close>

lemma match_branch_length:
  "match_branch a s b bq st = (sell_tx, m, st1) \<Longrightarrow>
   length (SELL st1) + length (BUY st1) \<le> length (SELL st) + Suc (length bq)"
  by (auto simp: match_branch_def Let_def split: if_splits)

lemma fifo_branch_length:
  assumes "fifo_branch a s st = (sell_tx, m, st1)"
  shows "length (SELL st1) + length (BUY st1) \<le> length (SELL st) + length (BUY st)"
proof (cases "margin_test (BUY st) s")
  case True
  with assms show ?thesis
    by (auto simp: fifo_branch_margin margin_branch_def)
next
  case False
  then obtain b bq where bq: "BUY st = b # bq"
    by (cases "BUY st") (simp_all add: margin_test_def)
  with assms False have "match_branch a s b bq st = (sell_tx, m, st1)"
    by (simp add: fifo_branch_match)
  from match_branch_length [OF this] bq show ?thesis
    by simp
qed

lemma match_and_emit_length:
  assumes "match_and_emit a s st = (sell_tx, m, st1)"
  shows "length (SELL st1) + length (BUY st1) \<le> length (SELL st) + length (BUY st)"
proof -
  obtain m0 st0 where fb: "fifo_branch a s st = (sell_tx, m0, st0)"
    and st1: "st1 = emit_match m st0"
    using assms by (auto simp: match_and_emit_def split: prod.splits)
  from fifo_branch_length [OF fb] st1 show ?thesis
    by simp
qed

lemma sell_iter_length:
  assumes "sell_iter a s st = Inr st'"
  shows "length (SELL st') + length (BUY st') \<le> length (SELL st) + length (BUY st)"
proof -
  obtain sell_tx m st1 where me: "match_and_emit a s st = (sell_tx, m, st1)"
    by (cases "match_and_emit a s st") auto
  with assms have "update_summaries sell_tx m st1 = Inr st'"
    by (simp add: sell_iter_def)
  from update_summaries_Inr(1,2) [OF this] match_and_emit_length [OF me] show ?thesis
    by simp
qed

lemma sell_loop_fuel_enough:
  "length (SELL st) + length (BUY st) \<le> n \<Longrightarrow> sell_loop_fuel n a st = Some (sell_loop a st)"
proof (induction n arbitrary: st)
  case 0
  then show ?case
    by (simp add: sell_loop.simps [of a st])
next
  case (Suc n)
  show ?case
  proof (cases "SELL st")
    case Nil
    then show ?thesis
      by (simp add: sell_loop.simps [of a st])
  next
    case (Cons s sq)
    show ?thesis
    proof (cases "sell_iter a s (st\<lparr>SELL := sq\<rparr>)")
      case (Inl e)
      with Cons show ?thesis
        by (simp add: sell_loop.simps [of a st])
    next
      case (Inr st')
      from sell_iter_length [OF Inr] Cons Suc.prems
      have "length (SELL st') + length (BUY st') \<le> n"
        by simp
      from Suc.IH [OF this] Cons Inr show ?thesis
        by (simp add: sell_loop.simps [of a st])
    qed
  qed
qed

lemma match_branch_sale_units:
  assumes "match_branch a s b bq st = (sell_tx, m, st1)" and "Units s \<le> 0" and "0 \<le> Units b"
  shows "0 \<le> lot_Units m \<and> sale_units (SELL st1) + lot_Units m = sale_units (SELL st) + \<bar>Units s\<bar>"
  using assms
  by (auto simp: match_branch_def fifo_lot_def sale_units_def Let_def split: if_splits)

lemma match_branch_requeue:
  assumes "match_branch a s b bq st = (sell_tx, m, st1)"
  shows "(SELL st1 = SELL st \<or>
          Units b < \<bar>Units s\<bar> \<and>
          SELL st1 = s\<lparr>Units := Units s + Units b,
                        Total_Amount := Total_Amount s -
                          Units b / \<bar>Units s\<bar> * Total_Amount s\<rparr> # SELL st) \<and>
         (BUY st1 = bq \<or>
          \<bar>Units s\<bar> < Units b \<and>
          BUY st1 = b\<lparr>Units := Units b + Units s,
                       Total_Amount := Total_Amount b -
                         \<bar>Units s\<bar> / Units b * Total_Amount b\<rparr> # bq)"
  using assms by (auto simp: match_branch_def Let_def split: if_splits)

lemma emit_state_queues:
  assumes "match_and_emit a s st = (sell_tx, m, st1)"
  obtains m0 st0 where "fifo_branch a s st = (sell_tx, m0, st0)" "m = set_gain m0"
    "SELL st1 = SELL st0" "BUY st1 = BUY st0"
  using assms by (auto simp: match_and_emit_def split: prod.splits)





section \<open>Conservation of the purchased units\<close>

lemma dust_nonneg: "0 \<le> dust"
  by (simp add: dust_def)

lemma matched_units_append [simp]:
  "matched_units (xs @ ys) = matched_units xs + matched_units ys"
  by (simp add: matched_units_def)

lemma carried_units_append [simp]:
  "carried_units (xs @ ys) = carried_units xs + carried_units ys"
  by (simp add: carried_units_def)

lemma match_branch_accounts:
  assumes "match_branch a s b bq st = (sell_tx, m, st1)"
    and "Units s \<le> 0" and "0 \<le> Units b"
  shows "0 \<le> lot_Units m \<and> purchased (BUY st1) + lot_Units m = Units b + purchased bq \<and>
         IRS_ID_Buy m = IRS_ID b \<and>
         (buys_ok bq \<longrightarrow> buys_ok (BUY st1)) \<and>
         (sells_ok (SELL st) \<longrightarrow> sells_ok (SELL st1)) \<and>
         (no_margin_id (b # bq) \<longrightarrow> no_margin_id (BUY st1))"
  using assms
  by (auto simp: match_branch_def fifo_lot_def purchased_def buys_ok_def sells_ok_def
        no_margin_id_def Let_def split: if_splits)

lemma sell_iter_accounts:
  assumes ok: "queues_ok st" and s: "Units s \<le> 0" and it: "sell_iter a s st = Inr st'"
  shows "queues_ok st' \<and> accounted st' \<le> accounted st \<and> accounted st \<le> accounted st' + dust \<and>
         entries st' \<le> entries st \<and>
         carried_units (fifo_asset st') = carried_units (fifo_asset st) \<and>
         vol_Remainder_Units (volume_summary st') = vol_Remainder_Units (volume_summary st)"
proof -
  obtain sell_tx m st1 where me: "match_and_emit a s st = (sell_tx, m, st1)"
    by (cases "match_and_emit a s st") auto
  with it have u: "update_summaries sell_tx m st1 = Inr st'"
    by (simp add: sell_iter_def)
  from update_summaries_bound_iff [OF u] obtain b0 where b0: "buy_tx st1 = Some b0"
    by blast
  from u update_summaries_result [OF b0, of sell_tx m] have
    vr: "vol_Remainder_Units (volume_summary st') = vol_Remainder_Units (volume_summary st1)"
    by auto
  note q = update_summaries_Inr [OF u]
  have main: "queues_ok st1 \<and> accounted st1 \<le> accounted st \<and>
      accounted st \<le> accounted st1 + dust \<and> entries st1 \<le> entries st \<and>
      carried_units (fifo_asset st1) = carried_units (fifo_asset st) \<and>
      vol_Remainder_Units (volume_summary st1) = vol_Remainder_Units (volume_summary st)"
  proof (cases "margin_test (BUY st) s")
    case True
    from match_and_emit_margin [OF True, of a] me have
      st1: "st1 = emit_match (margin_match a s) (st\<lparr>margin := margin st @ [margin_match a s]\<rparr>)"
      by simp
    have "matched_units (fifo_asset st1) = matched_units (fifo_asset st)"
      by (simp add: st1 matched_units_def margin_match_def)
    moreover have "carried_units (fifo_asset st1) = carried_units (fifo_asset st)"
      by (simp add: st1 carried_units_def)
    ultimately show ?thesis
      using ok dust_nonneg by (simp add: st1 accounted_def entries_def queues_ok_def)
  next
    case False
    then obtain b bq where bq: "BUY st = b # bq"
      by (cases "BUY st") (simp_all add: margin_test_def)
    obtain sell_tx' m' st0 where mb: "match_branch a s b bq st = (sell_tx', m', st0)"
      by (cases "match_branch a s b bq st") auto
    from match_and_emit_match [OF bq False mb] me have
      st1: "st1 = emit_match m st0" and m: "m = m'"
      by simp_all
    from ok bq have b: "0 \<le> Units b" "buys_ok bq" "sells_ok (SELL st)" "no_margin_id (b # bq)"
      "IRS_ID b \<noteq> ''MARGIN''"
      by (simp_all add: queues_ok_def buys_ok_def no_margin_id_def)
    note acc = match_branch_accounts [OF mb s b(1)]
    note un = match_branch_queues [OF mb]
    from acc b have qok: "queues_ok st1"
      by (simp add: st1 queues_ok_def)
    from acc b m have rm: "row_matched (Lot m) = lot_Units m" "0 \<le> lot_Units m"
      by simp_all
    have pu: "purchased (BUY st) = Units b + purchased bq"
      by (simp add: bq purchased_def)
    have pb: "purchased (BUY st1) + lot_Units m = purchased (BUY st)"
      using acc pu m by (simp add: st1)
    have ab: "\<bar>lot_Units m\<bar> = lot_Units m"
      using rm(2) by simp
    have mu: "matched_units (fifo_asset st1) =
        matched_units (fifo_asset st) + (if lot_Units m > dust then lot_Units m else 0)"
      using un rm(1) by (simp add: st1 ab matched_units_def)
    have a1: "accounted st1 \<le> accounted st \<and> accounted st \<le> accounted st1 + dust"
    proof (cases "lot_Units m > dust")
      case True
      with pb mu dust_nonneg show ?thesis
        by (simp add: accounted_def)
    next
      case False
      with pb mu rm(2) show ?thesis
        by (simp add: accounted_def)
    qed
    have e: "entries st1 \<le> entries st"
      using match_branch_length [OF mb] bq by (simp add: st1 entries_def)
    have c: "carried_units (fifo_asset st1) = carried_units (fifo_asset st)"
      using un by (simp add: st1 carried_units_def)
    from qok a1 e c un show ?thesis
      by (simp add: st1)
  qed
  have "queues_ok st' = queues_ok st1" "accounted st' = accounted st1" "entries st' = entries st1"
    using q by (simp_all add: queues_ok_def accounted_def entries_def)
  with main vr q show ?thesis
    by simp
qed

lemma sell_loop_accounts:
  "queues_ok st \<Longrightarrow> sell_loop a st = Inr st' \<Longrightarrow>
   queues_ok st' \<and> accounted st' \<le> accounted st \<and>
   accounted st + dust * of_nat (entries st') \<le> accounted st' + dust * of_nat (entries st) \<and>
   entries st' \<le> entries st \<and>
   carried_units (fifo_asset st') = carried_units (fifo_asset st) \<and>
   vol_Remainder_Units (volume_summary st') = vol_Remainder_Units (volume_summary st)"
proof (induction a st rule: sell_loop.induct)
  case (1 a st)
  show ?case
  proof (cases "SELL st")
    case Nil
    with "1.prems" show ?thesis
      by (simp add: sell_loop.simps [of a st])
  next
    case (Cons s sq)
    let ?stp = "st\<lparr>SELL := sq\<rparr>"
    from "1.prems"(2) Cons obtain st1 where
      it: "sell_iter a s ?stp = Inr st1" and rest: "sell_loop a st1 = Inr st'"
      by (auto simp: sell_loop.simps [of a st] split: sum.splits)
    from "1.prems"(1) Cons have okp: "queues_ok ?stp" and s: "Units s \<le> 0"
      by (simp_all add: queues_ok_def sells_ok_def)
    note step = sell_iter_accounts [OF okp s it]
    from step have ok1: "queues_ok st1"
      by simp
    note ih = "1.IH" [OF Cons it ok1 rest]
    have ap: "accounted ?stp = accounted st" "entries st = Suc (entries ?stp)"
      "carried_units (fifo_asset ?stp) = carried_units (fifo_asset st)"
      "vol_Remainder_Units (volume_summary ?stp) = vol_Remainder_Units (volume_summary st)"
      using Cons by (simp_all add: accounted_def entries_def)
    have n: "(of_nat (entries st1) :: rat) + 1 \<le> of_nat (entries st)"
    proof -
      from step ap(2) have "Suc (entries st1) \<le> entries st"
        by simp
      then have "(of_nat (Suc (entries st1)) :: rat) \<le> of_nat (entries st)"
        by (simp only: of_nat_le_iff)
      then show ?thesis
        by simp
    qed
    have "dust * (of_nat (entries st1) + 1) \<le> dust * of_nat (entries st)"
      using n dust_nonneg by (rule mult_left_mono)
    then have d: "dust * of_nat (entries st1) + dust \<le> dust * of_nat (entries st)"
      by (simp add: algebra_simps)
    have "accounted st + dust * of_nat (entries st') \<le> accounted st' + dust * of_nat (entries st)"
      using step ih d ap(1) by linarith
    moreover have "entries st' \<le> entries st"
      using step ih ap(2) by linarith
    moreover have "accounted st' \<le> accounted st"
      using step ih ap(1) by linarith
    ultimately show ?thesis
      using step ih ap(3,4) by simp
  qed
qed

lemma carry_iter_accounts:
  assumes "0 \<le> Units b"
  shows "matched_units (fifo_asset (carry_iter a b st)) = matched_units (fifo_asset st) \<and>
         carried_units (fifo_asset (carry_iter a b st)) \<le> carried_units (fifo_asset st) + Units b \<and>
         carried_units (fifo_asset st) + Units b \<le>
           carried_units (fifo_asset (carry_iter a b st)) + dust \<and>
         vol_Remainder_Units (volume_summary (carry_iter a b st)) =
           vol_Remainder_Units (volume_summary st) + Units b \<and>
         BUY (carry_iter a b st) = BUY st"
  using assms dust_nonneg
  by (auto simp: carry_iter_def Let_def matched_units_def carried_units_def)

lemma carry_loop_accounts:
  "buys_ok (BUY st) \<Longrightarrow>
   matched_units (fifo_asset (carry_loop a st)) = matched_units (fifo_asset st) \<and>
   carried_units (fifo_asset (carry_loop a st)) \<le>
     carried_units (fifo_asset st) + purchased (BUY st) \<and>
   carried_units (fifo_asset st) + purchased (BUY st) \<le>
     carried_units (fifo_asset (carry_loop a st)) + dust * of_nat (length (BUY st)) \<and>
   vol_Remainder_Units (volume_summary (carry_loop a st)) =
     vol_Remainder_Units (volume_summary st) + purchased (BUY st)"
proof (induction a st rule: carry_loop.induct)
  case (1 a st)
  show ?case
  proof (cases "BUY st")
    case Nil
    then show ?thesis
      by (simp add: carry_loop.simps [of a st] purchased_def)
  next
    case (Cons b bq)
    let ?st1 = "carry_iter a b (st\<lparr>BUY := bq\<rparr>)"
    from "1.prems" Cons have b: "0 \<le> Units b" and bq: "buys_ok bq"
      by (simp_all add: buys_ok_def)
    note step = carry_iter_accounts [OF b, of a "st\<lparr>BUY := bq\<rparr>"]
    from step bq have "buys_ok (BUY ?st1)"
      by simp
    note ih = "1.IH" [OF Cons this]
    have l: "carry_loop a st = carry_loop a ?st1"
      using Cons by (simp add: carry_loop.simps [of a st])
    have p: "purchased (BUY st) = Units b + purchased bq" "BUY ?st1 = bq"
      "(of_nat (length (BUY st)) :: rat) = of_nat (length bq) + 1"
      using Cons step by (simp_all add: purchased_def)
    have d: "dust * of_nat (length (BUY st)) = dust * of_nat (length bq) + dust"
      by (simp add: p(3) algebra_simps)
    from step ih show ?thesis
      unfolding l p(1) d by (simp add: p(2))
  qed
qed





end
